theory Spec2Isabelle
  imports Main "HOL-Library.Word"
begin

unbundle bit_operations_syntax

section \<open>Go values used by the section logger\<close>

text \<open>
  A Go \<^verbatim>\<open>string\<close> is a sequence of bytes; \<^verbatim>\<open>len\<close> counts bytes. It is modelled as
  \<^typ>\<open>string\<close> (a list of 8-bit characters). The box-drawing glyphs of the source file are
  written as their UTF-8 bytes. A \<^verbatim>\<open>time.Time\<close> obtained from \<^verbatim>\<open>time.Now()\<close> is
  modelled by its monotonic clock reading in nanoseconds, a \<^verbatim>\<open>time.Duration\<close> is a
  number of nanoseconds in the range of \<^verbatim>\<open>int64\<close>. The value returned by
  \<^verbatim>\<open>time.Now()\<close> is an argument \<open>now\<close> of every operation that reads the clock.
  The mutex of the logger is not modelled: every operation runs alone. Memory is not
  modelled either: no allocation fails, however long the string.
\<close>

type_synonym Instant = int
type_synonym Duration = int
type_synonym ColorCode = "32 word"
type_synonym TextStyle = int

datatype panic = NegativeRepeatCount | RepeatOverflow

definition maxInt64 :: int where
  "maxInt64 = 9223372036854775807"

definition minInt64 :: int where
  "minInt64 = - 9223372036854775808"

text \<open>Arithmetic on Go's \<^verbatim>\<open>int\<close> (64 bits, two's complement) wraps around.\<close>

definition wrap64 :: "int \<Rightarrow> int" where
  "wrap64 x = (x + 9223372036854775808) mod 18446744073709551616 - 9223372036854775808"

subsection \<open>Package \<^verbatim>\<open>unicode/utf8\<close>\<close>

definition byte :: "char \<Rightarrow> nat" where
  "byte c = of_char c"

text \<open>
  The table \<^verbatim>\<open>first\<close> of package utf8 together with \<^verbatim>\<open>acceptRanges\<close>: for a leading
  byte, the length of the sequence and the range accepted for its second byte;
  \<open>None\<close> for a byte that cannot start a multi-byte sequence.
\<close>

definition first :: "nat \<Rightarrow> (nat \<times> nat \<times> nat) option" where
  "first b =
     (if b < 0xC2 then None
      else if b < 0xE0 then Some (2, 0x80, 0xBF)
      else if b = 0xE0 then Some (3, 0xA0, 0xBF)
      else if b < 0xED then Some (3, 0x80, 0xBF)
      else if b = 0xED then Some (3, 0x80, 0x9F)
      else if b < 0xF0 then Some (3, 0x80, 0xBF)
      else if b = 0xF0 then Some (4, 0x90, 0xBF)
      else if b < 0xF4 then Some (4, 0x80, 0xBF)
      else if b = 0xF4 then Some (4, 0x80, 0x8F)
      else None)"

definition isCont :: "nat \<Rightarrow> bool" where
  "isCont b = (0x80 \<le> b \<and> b \<le> 0xBF)"

text \<open>
  How many bytes the rune at the head of \<open>c # s\<close> occupies, as the loop body of
  \<^verbatim>\<open>utf8.RuneCountInString\<close> computes it: an ASCII byte, an invalid byte and a
  truncated or malformed sequence all advance by one byte. \<open>seqSize\<close> is the part of the
  loop body that follows the table lookup: \<open>sz\<close> is the length the leading byte announces,
  \<open>lo\<close> and \<open>hi\<close> bound the second byte.
\<close>

definition seqSize :: "nat \<Rightarrow> nat \<Rightarrow> nat \<Rightarrow> string \<Rightarrow> nat" where
  "seqSize sz lo hi s =
     (if length s + 1 < sz then 1
      else if byte (s ! 0) < lo \<or> hi < byte (s ! 0) then 1
      else if sz = 2 then 2
      else if \<not> isCont (byte (s ! 1)) then 1
      else if sz = 3 then 3
      else if \<not> isCont (byte (s ! 2)) then 1
      else 4)"

definition runeSize :: "char \<Rightarrow> string \<Rightarrow> nat" where
  "runeSize c s =
     (if byte c < 0x80 then 1
      else case first (byte c) of
        None \<Rightarrow> 1
      | Some (sz, lo, hi) \<Rightarrow> seqSize sz lo hi s)"

function RuneCountInString :: "string \<Rightarrow> nat" where
  "RuneCountInString [] = 0"
| "RuneCountInString (c # s) = Suc (RuneCountInString (drop (runeSize c s - 1) s))"
  by pat_completeness auto
termination
  by (relation "measure length") auto

subsection \<open>Package \<^verbatim>\<open>strings\<close>\<close>

definition isASCII :: "char \<Rightarrow> bool" where
  "isASCII c = (byte c < 0x80)"

definition asciiUpper :: "char \<Rightarrow> char" where
  "asciiUpper c = (if 97 \<le> byte c \<and> byte c \<le> 122 then char_of (byte c - 32) else c)"

text \<open>
  \<^verbatim>\<open>strings.Repeat\<close>: a negative count panics, and so does a result longer than
  the largest \<^verbatim>\<open>int\<close>.
\<close>

definition Repeat :: "string \<Rightarrow> int \<Rightarrow> panic + string" where
  "Repeat s count =
     (if count = 0 then Inr []
      else if count = 1 then Inr s
      else if count < 0 then Inl NegativeRepeatCount
      else if maxInt64 < int (length s) * count then Inl RepeatOverflow
      else Inr (concat (replicate (nat count) s)))"

subsection \<open>Package \<^verbatim>\<open>fmt\<close>\<close>

definition digitChar :: "nat \<Rightarrow> char" where
  "digitChar d = char_of (48 + d)"

function fmtNat :: "nat \<Rightarrow> string" where
  "fmtNat n = (if n < 10 then [digitChar n] else fmtNat (n div 10) @ [digitChar (n mod 10)])"
  by pat_completeness auto
termination
  by (relation "measure id") auto

declare fmtNat.simps [simp del]

text \<open>The verb \<^verbatim>\<open>%d\<close> on a signed integer.\<close>

definition fmtInt :: "int \<Rightarrow> string" where
  "fmtInt i = (if i < 0 then CHR ''-'' # fmtNat (nat (- i)) else fmtNat (nat i))"

text \<open>
  Left-justified padding (flag \<^verbatim>\<open>-\<close>) to a width: \<^verbatim>\<open>fmt\<close> pads with spaces up to
  the width counted in runes.
\<close>

definition padRight :: "nat \<Rightarrow> string \<Rightarrow> string" where
  "padRight wid s = s @ replicate (wid - RuneCountInString s) CHR '' ''"

text \<open>
  \<^verbatim>\<open>fmt.Sprintf("%-*s", w, s)\<close>: the width comes from the argument list. A width
  beyond one million in absolute value is refused: \<^verbatim>\<open>fmt\<close> writes
  \<^verbatim>\<open>%!(BADWIDTH)\<close> and formats the string without a width. A negative width
  is its absolute value, left-justified.
\<close>

definition SprintfLeftStar :: "int \<Rightarrow> string \<Rightarrow> string" where
  "SprintfLeftStar w s =
     (if 1000000 < w \<or> w < - 1000000 then ''%!(BADWIDTH)'' @ s
      else padRight (nat \<bar>w\<bar>) s)"

text \<open>\<^verbatim>\<open>fmt.Sprintf("%-6d %-6d", a, b)\<close>.\<close>

definition SprintfMillis :: "int \<Rightarrow> int \<Rightarrow> string" where
  "SprintfMillis a b = padRight 6 (fmtInt a) @ '' '' @ padRight 6 (fmtInt b)"

subsection \<open>Package \<^verbatim>\<open>time\<close>\<close>

text \<open>\<^verbatim>\<open>t.Sub(u)\<close> saturates at the bounds of \<^verbatim>\<open>Duration\<close>.\<close>

definition Sub :: "Instant \<Rightarrow> Instant \<Rightarrow> Duration" where
  "Sub t u = max minInt64 (min maxInt64 (t - u))"

text \<open>\<^verbatim>\<open>d.Milliseconds()\<close> is \<^verbatim>\<open>int64(d) / 1e6\<close>; Go's division truncates toward zero.\<close>

definition Milliseconds :: "Duration \<Rightarrow> int" where
  "Milliseconds d = sgn d * (\<bar>d\<bar> div 1000000)"

section \<open>Code outside the given sources\<close>

text \<open>
  Two operations the section logger calls are not among the source files: the function
  \<^verbatim>\<open>coloransi.ColorAndStyle\<close> (only its tests and its callers are given), and the
  Unicode case mapping \<^verbatim>\<open>strings.Map(unicode.ToUpper, s)\<close> that \<^verbatim>\<open>strings.ToUpper\<close>
  applies to a string with a non-ASCII byte. Both are parameters of the model, the fields of
  a record \<open>lib\<close> that every operation takes; each theorem with a free \<open>lib\<close> holds for
  every choice of the two.
\<close>

record extern =
  ColorAndStyle :: "ColorCode \<Rightarrow> ColorCode \<Rightarrow> TextStyle \<Rightarrow> string \<Rightarrow> string"
  unicodeToUpper :: "string \<Rightarrow> string"

text \<open>
  \<^verbatim>\<open>strings.ToUpper\<close>: an ASCII string has its letters a to z replaced byte by byte;
  any other string goes through the Unicode mapping.
\<close>

definition ToUpper :: "extern \<Rightarrow> string \<Rightarrow> string" where
  "ToUpper lib s = (if list_all isASCII s then map asciiUpper s else unicodeToUpper lib s)"

section \<open>Package \<^verbatim>\<open>coloransi\<close>\<close>

definition Black :: ColorCode where "Black = 30"
definition Cyan :: ColorCode where "Cyan = 36"
definition White :: ColorCode where "White = 37"
definition Green :: ColorCode where "Green = 32"
definition BrightGreen :: ColorCode where "BrightGreen = Green + 60"
definition BrightWhite :: ColorCode where "BrightWhite = White + 60"
definition BackgroundOffset :: ColorCode where "BackgroundOffset = 10"
definition RGBMask :: ColorCode where "RGBMask = 0xFFFFFF00"

text \<open>
  Modelled from the spec: the declaration of \<^verbatim>\<open>TextStyle\<close> and of its constants is not
  among the sources; \<^verbatim>\<open>coloransi_test.go\<close> expects \<^verbatim>\<open>int(Bold)\<close> to be 1.
\<close>

definition Bold :: TextStyle where "Bold = 1"

definition IsRGB :: "ColorCode \<Rightarrow> bool" where
  "IsRGB c = (c AND RGBMask \<noteq> 0)"

definition ESC :: char where "ESC = CHR 0x1B"

definition fmtWord :: "ColorCode \<Rightarrow> string" where
  "fmtWord c = fmtNat (unat c)"

definition OneForeground :: "ColorCode \<Rightarrow> string" where
  "OneForeground code =
     (if IsRGB code then
        ESC # ''[38;2;'' @ fmtWord (drop_bit 24 code AND 0xFF) @ '';''
          @ fmtWord (drop_bit 16 code AND 0xFF) @ '';''
          @ fmtWord (drop_bit 8 code AND 0xFF) @ ''m''
      else ESC # ''['' @ fmtWord code @ ''m'')"

definition OneBackground :: "ColorCode \<Rightarrow> string" where
  "OneBackground code =
     (if IsRGB code then
        ESC # ''[48;2;'' @ fmtWord (drop_bit 24 code AND 0xFF) @ '';''
          @ fmtWord (drop_bit 16 code AND 0xFF) @ '';''
          @ fmtWord (drop_bit 8 code AND 0xFF) @ ''m''
      else ESC # ''['' @ fmtWord (code + BackgroundOffset) @ ''m'')"

definition Reset :: string where
  "Reset = ESC # ''[0m''"

text \<open>\<^verbatim>\<open>Foreground(fg, text)\<close> with its single string argument.\<close>

definition Foreground :: "ColorCode \<Rightarrow> string \<Rightarrow> string" where
  "Foreground fg text = OneForeground fg @ text @ Reset"

text \<open>
  Modelled from the spec: the function \<^verbatim>\<open>ColorAndStyle\<close> is not among the sources. The spec
  (section 6) has it wrap the text in the escape sequences for the foreground, then the
  background (if set), then the style, followed by the reset sequence, and
  \<^verbatim>\<open>coloransi_test.go\<close> expects \<^verbatim>\<open>ColorAndStyle(Red, Black, Bold, "Test")\<close> to be
  \<^verbatim>\<open>\033[31m\033[40m\033[1mTest\033[0m\<close>. This instance serves where a theorem evaluates the
  logger on concrete input.
\<close>

definition ColorAndStyleSpec :: "ColorCode \<Rightarrow> ColorCode \<Rightarrow> TextStyle \<Rightarrow> string \<Rightarrow> string" where
  "ColorAndStyleSpec fg bg style text =
     OneForeground fg @ (if bg = 0 then [] else OneBackground bg)
       @ ESC # ''['' @ fmtInt style @ ''m'' @ text @ Reset"

text \<open>
  The concrete library of the evaluated examples. Their section names are ASCII, so that
  \<open>ToUpper\<close> never reaches the second field.
\<close>

definition goLib :: extern where
  "goLib = \<lparr>ColorAndStyle = ColorAndStyleSpec, unicodeToUpper = map asciiUpper\<rparr>"

section \<open>Package \<^verbatim>\<open>sectionlogger\<close>\<close>

subsection \<open>Log entries\<close>

text \<open>
  The interface \<^verbatim>\<open>logEntry\<close> with its two implementations: \<^verbatim>\<open>labelEntry\<close> (section,
  label, value) and \<^verbatim>\<open>eventEntry\<close> (section, value, timestamp, startTime, prevTime).
\<close>

datatype logEntry =
    LabelEntry string string string
  | EventEntry string string Instant Instant Instant

fun Width :: "logEntry \<Rightarrow> int" where
  "Width (LabelEntry section label val) = int (length label)"
| "Width (EventEntry section val timestamp start prev) = 13"

fun Section :: "extern \<Rightarrow> logEntry \<Rightarrow> string" where
  "Section lib (LabelEntry section label val) = section"
| "Section lib (EventEntry section val timestamp start prev) = ToUpper lib section"

fun RenderLabel :: "logEntry \<Rightarrow> string" where
  "RenderLabel (LabelEntry section label val) = label"
| "RenderLabel (EventEntry section val timestamp start prev) =
     (let sinceStart = Milliseconds (Sub timestamp start);
          sincePrev = Milliseconds (Sub timestamp prev)
      in SprintfMillis sinceStart sincePrev)"

fun RenderValue :: "logEntry \<Rightarrow> string" where
  "RenderValue (LabelEntry section label val) = val"
| "RenderValue (EventEntry section val timestamp start prev) = val"

subsection \<open>The logger\<close>

record SectionLogger =
  prefix :: string
  entries :: "logEntry list"
  startTime :: Instant
  lastTime :: Instant
  width :: int
  borderFg :: ColorCode
  borderBg :: ColorCode
  borderStyle :: TextStyle
  prefixFg :: ColorCode
  prefixBg :: ColorCode
  prefixStyle :: TextStyle
  complete :: bool

definition New :: "Instant \<Rightarrow> string \<Rightarrow> SectionLogger" where
  "New now pfx =
     \<lparr>prefix = pfx, entries = [], startTime = now, lastTime = now, width = 80,
      borderFg = Black, borderBg = BrightGreen, borderStyle = 0,
      prefixFg = Black, prefixBg = Cyan, prefixStyle = 0, complete = False\<rparr>"

definition SetWidth :: "int \<Rightarrow> SectionLogger \<Rightarrow> SectionLogger" where
  "SetWidth w l = l\<lparr>width := w\<rparr>"

definition SetBorderColor :: "ColorCode \<Rightarrow> ColorCode \<Rightarrow> TextStyle \<Rightarrow> SectionLogger \<Rightarrow> SectionLogger" where
  "SetBorderColor fg bg style l = l\<lparr>borderFg := fg, borderBg := bg, borderStyle := style\<rparr>"

definition SetPrefixColor :: "ColorCode \<Rightarrow> ColorCode \<Rightarrow> TextStyle \<Rightarrow> SectionLogger \<Rightarrow> SectionLogger" where
  "SetPrefixColor fg bg style l = l\<lparr>prefixFg := fg, prefixBg := bg, prefixStyle := style\<rparr>"

text \<open>The prefix block that starts every line.\<close>

definition prefixBlock :: "extern \<Rightarrow> SectionLogger \<Rightarrow> string" where
  "prefixBlock lib l = ColorAndStyle lib (prefixFg l) (prefixBg l) (prefixStyle l) (prefix l)"

definition renderEntry :: "extern \<Rightarrow> SectionLogger \<Rightarrow> logEntry \<Rightarrow> int \<Rightarrow> string" where
  "renderEntry lib l entry maxKeyWidth =
     (let labelPadded = SprintfLeftStar maxKeyWidth (Section lib entry @ ''/'' @ RenderLabel entry)
      in prefixBlock lib l @ '' '' @ Foreground BrightWhite labelPadded @ '' : ''
           @ RenderValue entry)"

definition calculateMaxWidth :: "SectionLogger \<Rightarrow> int" where
  "calculateMaxWidth l =
     foldl (\<lambda>maxWidth entry. if maxWidth < Width entry then Width entry else maxWidth) 0 (entries l)"

subsection \<open>Border lines\<close>

definition glyphHorizontal :: string where "glyphHorizontal = [CHR 0xE2, CHR 0x94, CHR 0x81]"
definition glyphVertical :: string where "glyphVertical = [CHR 0xE2, CHR 0x94, CHR 0x83]"
definition glyphCap :: string where "glyphCap = [CHR 0xE2, CHR 0x94, CHR 0x85]"
definition glyphTopLeft :: string where "glyphTopLeft = [CHR 0xE2, CHR 0x94, CHR 0x8F]"
definition glyphBottomLeft :: string where "glyphBottomLeft = [CHR 0xE2, CHR 0x94, CHR 0x97]"
definition glyphBranch :: string where "glyphBranch = [CHR 0xE2, CHR 0x94, CHR 0xA3]"
definition glyphBracketLeft :: string where "glyphBracketLeft = [CHR 0xE2, CHR 0x94, CHR 0xA5]"
definition glyphBracketRight :: string where "glyphBracketRight = [CHR 0xE2, CHR 0x94, CHR 0x9D]"

definition createBorderLine :: "extern \<Rightarrow> SectionLogger \<Rightarrow> string \<Rightarrow> string \<Rightarrow> panic + string" where
  "createBorderLine lib l leftChar text =
     (let fg = borderFg l; bg = borderBg l; st = borderStyle l
      in case Repeat glyphHorizontal 4 of
           Inl p \<Rightarrow> Inl p
         | Inr dashes \<Rightarrow>
             (let parts = [ColorAndStyle lib fg bg st leftChar, ColorAndStyle lib fg bg st dashes];
                  borderWidth = wrap64 (width l - 5);
                  (parts, borderWidth) =
                    (if text \<noteq> [] then
                       (let textColored =
                              ColorAndStyle lib BrightWhite Black (st OR Bold) ('' '' @ text @ '' '');
                            textSegment =
                              ColorAndStyle lib fg bg st glyphBracketLeft @ textColored
                                @ ColorAndStyle lib fg bg st glyphBracketRight
                        in (parts @ [textSegment],
                            wrap64 (borderWidth - wrap64 (int (length text) + 4))))
                     else (parts, borderWidth))
              in case Repeat glyphHorizontal borderWidth of
                   Inl p \<Rightarrow> Inl p
                 | Inr fill \<Rightarrow>
                     Inr (concat (parts @ [ColorAndStyle lib fg bg st fill]
                                    @ [ColorAndStyle lib fg bg st glyphCap]))))"

text \<open>A header or footer line: the prefix block, a space and a border line.\<close>

definition borderedLine :: "extern \<Rightarrow> SectionLogger \<Rightarrow> string \<Rightarrow> string \<Rightarrow> panic + string" where
  "borderedLine lib l leftChar text =
     (case createBorderLine lib l leftChar text of
        Inl p \<Rightarrow> Inl p
      | Inr border \<Rightarrow> Inr (prefixBlock lib l @ '' '' @ border))"

subsection \<open>Mutations\<close>

text \<open>
  Every operation returns what it did to standard output together with the logger it
  leaves behind: \<open>Inr lines\<close> when it returned after printing \<open>lines\<close>, \<open>Inl p\<close> when it
  panicked. A panic of \<^verbatim>\<open>Add\<close> or \<^verbatim>\<open>Event\<close> can only come from \<^verbatim>\<open>createBorderLine\<close>,
  which runs before the first line is printed.
\<close>

text \<open>
  The backward scan \<^verbatim>\<open>for i := len(l.entries) - 2; i >= 0; i--\<close>: is no entry at an index
  from \<open>i\<close> down to 0 of the given section?
\<close>

function isNewSection :: "extern \<Rightarrow> logEntry list \<Rightarrow> int \<Rightarrow> string \<Rightarrow> bool" where
  "isNewSection lib es i section =
     (if 0 \<le> i then
        (if Section lib (es ! nat i) = section then False
         else isNewSection lib es (i - 1) section)
      else True)"
  by pat_completeness auto
termination
  by (relation "measure (\<lambda>(lib, es, i, section). nat (i + 1))") auto

declare isNewSection.simps [simp del]

text \<open>The streaming path shared, line for line, by \<^verbatim>\<open>Add\<close> and \<^verbatim>\<open>Event\<close>.\<close>

definition streamEntry :: "extern \<Rightarrow> SectionLogger \<Rightarrow> logEntry \<Rightarrow> string \<Rightarrow> panic + string list" where
  "streamEntry lib l entry section =
     (let new = isNewSection lib (entries l) (int (length (entries l)) - 2) section
      in case (if new then
                 (case borderedLine lib l glyphBranch section of
                    Inl p \<Rightarrow> Inl p
                  | Inr header \<Rightarrow> Inr [header])
               else Inr []) of
           Inl p \<Rightarrow> Inl p
         | Inr printed \<Rightarrow> Inr (printed @ [renderEntry lib l entry (calculateMaxWidth l)]))"

definition Add ::
  "extern \<Rightarrow> Instant \<Rightarrow> string \<Rightarrow> string \<Rightarrow> string \<Rightarrow> SectionLogger
    \<Rightarrow> (panic + string list) \<times> SectionLogger" where
  "Add lib now section0 label val l =
     (let section = ToUpper lib section0;
          entry = LabelEntry section label val;
          l' = l\<lparr>entries := entries l @ [entry], lastTime := now\<rparr>
      in if complete l' then (streamEntry lib l' entry section, l') else (Inr [], l'))"

text \<open>The loop of \<^verbatim>\<open>Clear\<close> over the buffer, appending to \<^verbatim>\<open>newEntries\<close>.\<close>

fun clearLoop :: "extern \<Rightarrow> string \<Rightarrow> logEntry list \<Rightarrow> logEntry list \<Rightarrow> logEntry list" where
  "clearLoop lib section [] newEntries = newEntries"
| "clearLoop lib section (entry # rest) newEntries =
     clearLoop lib section rest
       (if Section lib entry \<noteq> section then newEntries @ [entry] else newEntries)"

definition Clear :: "extern \<Rightarrow> string \<Rightarrow> SectionLogger \<Rightarrow> (panic + string list) \<times> SectionLogger" where
  "Clear lib section0 l =
     (let section = ToUpper lib section0
      in (Inr [], l\<lparr>entries := clearLoop lib section (entries l) []\<rparr>))"

definition Event ::
  "extern \<Rightarrow> Instant \<Rightarrow> string \<Rightarrow> string \<Rightarrow> SectionLogger
    \<Rightarrow> (panic + string list) \<times> SectionLogger" where
  "Event lib now section val l =
     (let entry = EventEntry section val now (startTime l) (lastTime l);
          l' = l\<lparr>entries := entries l @ [entry], lastTime := now\<rparr>
      in if complete l' then (streamEntry lib l' entry section, l') else (Inr [], l'))"

subsection \<open>Render\<close>

text \<open>
  The first loop of \<^verbatim>\<open>Render\<close>: one step on the map \<^verbatim>\<open>sections\<close> and the slice
  \<^verbatim>\<open>sectionOrder\<close>. Reading a key the map does not hold gives the empty slice.
\<close>

definition lookupSection :: "(string \<rightharpoonup> logEntry list) \<Rightarrow> string \<Rightarrow> logEntry list" where
  "lookupSection sections section = (case sections section of None \<Rightarrow> [] | Some es \<Rightarrow> es)"

definition groupStep ::
  "extern \<Rightarrow> (string \<rightharpoonup> logEntry list) \<times> string list \<Rightarrow> logEntry
    \<Rightarrow> (string \<rightharpoonup> logEntry list) \<times> string list" where
  "groupStep lib acc entry =
     (case acc of (sections, sectionOrder) \<Rightarrow>
        (let section = Section lib entry;
             sectionOrder' =
               (if length (lookupSection sections section) = 0 then sectionOrder @ [section]
                else sectionOrder)
         in (sections(section \<mapsto> lookupSection sections section @ [entry]), sectionOrder')))"

definition groupEntries ::
  "extern \<Rightarrow> logEntry list \<Rightarrow> (string \<rightharpoonup> logEntry list) \<times> string list" where
  "groupEntries lib es = foldl (groupStep lib) (Map.empty, []) es"

text \<open>An entry line of the bulk renderer (lines 309 to 315).\<close>

definition renderLine :: "extern \<Rightarrow> SectionLogger \<Rightarrow> int \<Rightarrow> logEntry \<Rightarrow> string" where
  "renderLine lib l maxKeyWidth entry =
     (let labelPadded = SprintfLeftStar maxKeyWidth (RenderLabel entry)
      in prefixBlock lib l @ '' ''
           @ ColorAndStyle lib (borderFg l) (borderBg l) (borderStyle l) glyphVertical @ '' ''
           @ Foreground BrightWhite labelPadded @ '' : '' @ RenderValue entry)"

text \<open>
  The second loop, over \<^verbatim>\<open>sectionOrder\<close> from index \<open>i\<close> on, appending to \<^verbatim>\<open>results\<close>.
\<close>

fun renderSections ::
  "extern \<Rightarrow> SectionLogger \<Rightarrow> (string \<rightharpoonup> logEntry list) \<Rightarrow> int \<Rightarrow> nat \<Rightarrow> string list
    \<Rightarrow> string list \<Rightarrow> panic + string list" where
  "renderSections lib l sections maxKeyWidth i [] results = Inr results"
| "renderSections lib l sections maxKeyWidth i (section # rest) results =
     (let es = lookupSection sections section;
          borderChar = (if i = 0 then glyphTopLeft else glyphBranch)
      in case borderedLine lib l borderChar section of
           Inl p \<Rightarrow> Inl p
         | Inr headerLine \<Rightarrow>
             renderSections lib l sections maxKeyWidth (Suc i) rest
               (results @ [headerLine] @ map (renderLine lib l maxKeyWidth) es))"

definition Render :: "extern \<Rightarrow> SectionLogger \<Rightarrow> (panic + string list) \<times> SectionLogger" where
  "Render lib l0 =
     (let l = l0\<lparr>complete := True\<rparr>;
          (sections, sectionOrder) = groupEntries lib (entries l);
          maxKeyWidth = calculateMaxWidth l
      in (case renderSections lib l sections maxKeyWidth 0 sectionOrder [] of
            Inl p \<Rightarrow> Inl p
          | Inr results \<Rightarrow>
              if 0 < length results then
                (case borderedLine lib l glyphBottomLeft [] of
                   Inl p \<Rightarrow> Inl p
                 | Inr footer \<Rightarrow> Inr (results @ [footer]))
              else Inr results,
          l))"

section \<open>Notions the claims are stated with\<close>

subsection \<open>Grouping as the specification words it\<close>

text \<open>
  The distinct elements of a list in the order of their first occurrence.
\<close>

primrec firstOccurrences :: "string list \<Rightarrow> string list" where
  "firstOccurrences [] = []"
| "firstOccurrences (s # ss) = s # filter (\<lambda>t. t \<noteq> s) (firstOccurrences ss)"

text \<open>Concatenation of line groups that stops at the first panic.\<close>

fun collect :: "(panic + string list) list \<Rightarrow> panic + string list" where
  "collect [] = Inr []"
| "collect (Inl p # rest) = Inl p"
| "collect (Inr ls # rest) =
     (case collect rest of Inl p \<Rightarrow> Inl p | Inr others \<Rightarrow> Inr (ls @ others))"

text \<open>
  The group of section \<open>s\<close>, the \<open>i\<close>-th one: its header line, then one line for each
  entry of the buffer that belongs to \<open>s\<close>, in buffer order.
\<close>

definition sectionGroup ::
  "extern \<Rightarrow> SectionLogger \<Rightarrow> int \<Rightarrow> nat \<Rightarrow> string \<Rightarrow> panic + string list" where
  "sectionGroup lib l w i s =
     (case borderedLine lib l (if i = 0 then glyphTopLeft else glyphBranch) s of
        Inl p \<Rightarrow> Inl p
      | Inr header \<Rightarrow>
          Inr (header # map (renderLine lib l w) (filter (\<lambda>e. Section lib e = s) (entries l))))"

text \<open>
  Section 4.3 of the specification, steps 2 to 5: the groups of the sections in
  first-occurrence order, the key width the maximum \<^verbatim>\<open>Width()\<close> of the whole buffer, and a
  closing border line when there is any line.
\<close>

definition RenderSpec :: "extern \<Rightarrow> SectionLogger \<Rightarrow> panic + string list" where
  "RenderSpec lib l =
     (let order = firstOccurrences (map (Section lib) (entries l));
          w = Max (set (0 # map Width (entries l)))
      in case collect (map (\<lambda>(i, s). sectionGroup lib l w i s) (enumerate 0 order)) of
           Inl p \<Rightarrow> Inl p
         | Inr body \<Rightarrow>
             if body = [] then Inr []
             else (case borderedLine lib l glyphBottomLeft [] of
                     Inl p \<Rightarrow> Inl p
                   | Inr footer \<Rightarrow> Inr (body @ [footer])))"

subsection \<open>The column of the separator\<close>

text \<open>
  What an entry line of \<^verbatim>\<open>Render\<close> holds before its separator \<^verbatim>\<open>" : "\<close>, and the number
  of runes of that text: the column at which the separator starts. The escape sequences
  count as the runes they are made of; they are the same in every line of a logger.
\<close>

definition beforeSeparator :: "extern \<Rightarrow> SectionLogger \<Rightarrow> int \<Rightarrow> logEntry \<Rightarrow> string" where
  "beforeSeparator lib l w e =
     prefixBlock lib l @ '' ''
       @ ColorAndStyle lib (borderFg l) (borderBg l) (borderStyle l) glyphVertical @ '' ''
       @ Foreground BrightWhite (SprintfLeftStar w (RenderLabel e))"

definition separatorColumn :: "extern \<Rightarrow> SectionLogger \<Rightarrow> int \<Rightarrow> logEntry \<Rightarrow> nat" where
  "separatorColumn lib l w e = RuneCountInString (beforeSeparator lib l w e)"

text \<open>
  An event entry whose two millisecond counts take at most six characters each, the
  width \<^verbatim>\<open>eventEntry.Width\<close> is sized for. Every label entry qualifies.
\<close>

definition sixChars :: "int \<Rightarrow> bool" where
  "sixChars ms = (- 99999 \<le> ms \<and> ms \<le> 999999)"

fun millisFit :: "logEntry \<Rightarrow> bool" where
  "millisFit (LabelEntry section label val) = True"
| "millisFit (EventEntry section val timestamp start prev) =
     (sixChars (Milliseconds (Sub timestamp start)) \<and> sixChars (Milliseconds (Sub timestamp prev)))"

subsection \<open>The pieces of a border line\<close>

text \<open>
  The count that \<^verbatim>\<open>createBorderLine\<close> passes to its second \<^verbatim>\<open>strings.Repeat\<close>: the
  value of \<^verbatim>\<open>borderWidth\<close> at line 271.
\<close>

definition borderWidth :: "SectionLogger \<Rightarrow> string \<Rightarrow> int" where
  "borderWidth l text =
     (if text \<noteq> [] then wrap64 (wrap64 (width l - 5) - wrap64 (int (length text) + 4))
      else wrap64 (width l - 5))"

text \<open>
  The texts that \<^verbatim>\<open>createBorderLine\<close> hands to \<^verbatim>\<open>ColorAndStyle\<close>, in the order in which
  the results are joined, each with its colours and style.
\<close>

definition borderPieces ::
  "SectionLogger \<Rightarrow> string \<Rightarrow> string \<Rightarrow> (ColorCode \<times> ColorCode \<times> TextStyle \<times> string) list" where
  "borderPieces l leftChar text =
     (let fg = borderFg l; bg = borderBg l; st = borderStyle l
      in [(fg, bg, st, leftChar), (fg, bg, st, concat (replicate 4 glyphHorizontal))]
         @ (if text \<noteq> [] then
              [(fg, bg, st, glyphBracketLeft),
               (BrightWhite, Black, st OR Bold, '' '' @ text @ '' ''),
               (fg, bg, st, glyphBracketRight)]
            else [])
         @ [(fg, bg, st, concat (replicate (nat (borderWidth l text)) glyphHorizontal)),
            (fg, bg, st, glyphCap)])"

definition colorize :: "extern \<Rightarrow> ColorCode \<times> ColorCode \<times> TextStyle \<times> string \<Rightarrow> string" where
  "colorize lib p = (case p of (fg, bg, st, text) \<Rightarrow> ColorAndStyle lib fg bg st text)"

text \<open>The number of glyphs of a border line: the runes of its pieces.\<close>

definition glyphCount :: "(ColorCode \<times> ColorCode \<times> TextStyle \<times> string) list \<Rightarrow> nat" where
  "glyphCount pieces = sum_list (map (\<lambda>p. RuneCountInString (snd (snd (snd p)))) pieces)"

subsection \<open>The lines of a border that does not panic\<close>

definition borderedText :: "extern \<Rightarrow> SectionLogger \<Rightarrow> string \<Rightarrow> string \<Rightarrow> string" where
  "borderedText lib l leftChar text =
     prefixBlock lib l @ '' '' @ concat (map (colorize lib) (borderPieces l leftChar text))"

text \<open>Does the border line of a section name fit the width, so that no count is negative?\<close>

definition borderFits :: "SectionLogger \<Rightarrow> string \<Rightarrow> bool" where
  "borderFits l text = (0 \<le> borderWidth l text \<and> 3 * borderWidth l text \<le> maxInt64)"

subsection \<open>Loggers of the evaluated examples\<close>

text \<open>An event after 5 ms and a label, not rendered.\<close>

definition exampleLog :: SectionLogger where
  "exampleLog =
     snd (Add goLib 7000000 ''id'' ''Code'' ''42''
       (snd (Event goLib 5000000 ''divert'' ''start'' (New 0 ''ABC''))))"

text \<open>The same with the event 1000 seconds after the logger was made.\<close>

definition longRunLog :: SectionLogger where
  "longRunLog =
     snd (Add goLib 1000000000007 ''id'' ''Code'' ''42''
       (snd (Event goLib 1000000000000 ''divert'' ''start'' (New 0 ''ABC''))))"



text \<open>A logger with one event of section \<^verbatim>\<open>divert\<close>, rendered.\<close>

definition divertLog :: SectionLogger where
  "divertLog = snd (Render goLib (snd (Event goLib 5000000 ''divert'' ''start'' (New 0 ''ABC''))))"



section \<open>Properties\<close>

subsection \<open>Helper facts\<close>

lemma clearLoop_filter:
  "clearLoop lib section es acc = acc @ filter (\<lambda>e. Section lib e \<noteq> section) es"
  by (induction es arbitrary: acc) auto

lemma Render_snd: "snd (Render lib l) = l\<lparr>complete := True\<rparr>"
  by (simp add: Render_def Let_def split_beta)

lemma Render_complete: "Render lib (l\<lparr>complete := True\<rparr>) = Render lib l"
  by (simp add: Render_def)

lemma Render_empty: "fst (Render lib (l\<lparr>entries := []\<rparr>)) = Inr []"
  by (simp add: Render_def groupEntries_def)

lemma streamEntry_prints: "streamEntry lib l e s \<noteq> Inr []"
  by (simp add: streamEntry_def Let_def split: sum.splits)

lemma Add_streams: "complete l \<Longrightarrow> fst (Add lib now s k v l) \<noteq> Inr []"
  by (simp add: Add_def Let_def streamEntry_prints)

lemma Event_streams: "complete l \<Longrightarrow> fst (Event lib now s v l) \<noteq> Inr []"
  by (simp add: Event_def Let_def streamEntry_prints)

lemma Add_buffers: "fst (Add lib now s k v (l\<lparr>complete := False\<rparr>)) = Inr []"
  by (simp add: Add_def Let_def)

lemma Event_buffers: "fst (Event lib now s v (l\<lparr>complete := False\<rparr>)) = Inr []"
  by (simp add: Event_def Let_def)

lemma first_Some:
  "first b = Some (sz, lo, hi) \<Longrightarrow> (sz = 2 \<or> sz = 3 \<or> sz = 4) \<and> 0x80 \<le> lo \<and> hi \<le> 0xBF"
  by (auto simp: first_def split: if_splits)

lemma seqSize_bounds:
  "sz = 2 \<or> sz = 3 \<or> sz = 4 \<Longrightarrow> 1 \<le> seqSize sz lo hi s \<and> seqSize sz lo hi s \<le> length s + 1"
  by (auto simp: seqSize_def Suc_le_eq)

lemma runeSize_bounds: "1 \<le> runeSize c s \<and> runeSize c s \<le> length s + 1"
proof (cases "first (byte c)")
  case None
  then show ?thesis by (simp add: runeSize_def)
next
  case (Some t)
  obtain sz lo hi where t: "t = (sz, lo, hi)" by (cases t)
  from first_Some [of "byte c" sz lo hi] Some t
  have "sz = 2 \<or> sz = 3 \<or> sz = 4" by simp
  from seqSize_bounds [OF this, of lo hi s] show ?thesis
    using Some t by (simp add: runeSize_def)
qed

lemma seqSize2_append:
  assumes "byte x < 0x80" "0x80 \<le> lo"
  shows "seqSize 2 lo hi (s @ x # xs) = seqSize 2 lo hi s"
  using assms by (cases s) (simp_all add: seqSize_def)

lemma seqSize3_append:
  assumes "byte x < 0x80" "0x80 \<le> lo"
  shows "seqSize 3 lo hi (s @ x # xs) = seqSize 3 lo hi s"
proof (cases s)
  case Nil
  then show ?thesis using assms by (simp add: seqSize_def)
next
  case (Cons a s')
  then show ?thesis using assms by (cases s') (simp_all add: seqSize_def isCont_def)
qed

lemma seqSize4_append:
  assumes "byte x < 0x80" "0x80 \<le> lo"
  shows "seqSize 4 lo hi (s @ x # xs) = seqSize 4 lo hi s"
proof (cases s)
  case Nil
  then show ?thesis using assms by (simp add: seqSize_def)
next
  case c1: (Cons a s')
  show ?thesis
  proof (cases s')
    case Nil
    then show ?thesis using assms c1 by (simp add: seqSize_def isCont_def)
  next
    case c2: (Cons a' s'')
    then show ?thesis using assms c1 by (cases s'') (simp_all add: seqSize_def isCont_def)
  qed
qed

lemma runeSize_append:
  assumes "b = [] \<or> isASCII (hd b)"
  shows "runeSize c (s @ b) = runeSize c s"
proof (cases b)
  case Nil
  then show ?thesis by simp
next
  case (Cons x xs)
  with assms have x: "byte x < 0x80" by (simp add: isASCII_def)
  show ?thesis
  proof (cases "first (byte c)")
    case None
    then show ?thesis by (simp add: runeSize_def)
  next
    case (Some t)
    obtain sz lo hi where t: "t = (sz, lo, hi)" by (cases t)
    from first_Some [of "byte c" sz lo hi] Some t
    have sz: "sz = 2 \<or> sz = 3 \<or> sz = 4" and lo: "0x80 \<le> lo" by simp_all
    have "seqSize sz lo hi (s @ x # xs) = seqSize sz lo hi s"
      using sz seqSize2_append [OF x lo] seqSize3_append [OF x lo] seqSize4_append [OF x lo]
      by blast
    then show ?thesis using Some t Cons by (simp add: runeSize_def)
  qed
qed

lemma RuneCount_append_ascii:
  "b = [] \<or> isASCII (hd b) \<Longrightarrow>
     RuneCountInString (a @ b) = RuneCountInString a + RuneCountInString b"
proof (induction a rule: RuneCountInString.induct)
  case 1
  show ?case by simp
next
  case (2 c s)
  have le: "runeSize c s - 1 \<le> length s" using runeSize_bounds [of c s] by arith
  show ?case using 2 le by (simp add: runeSize_append)
qed

lemma RuneCount_le_length: "RuneCountInString s \<le> length s"
proof (induction s rule: RuneCountInString.induct)
  case 1
  show ?case by simp
next
  case (2 c s)
  have "RuneCountInString (drop (runeSize c s - 1) s) \<le> length s"
    using 2 by (simp add: le_diff_conv)
  then show ?case by simp
qed

lemma runeSize_ascii: "isASCII c \<Longrightarrow> runeSize c s = 1"
  by (simp add: runeSize_def isASCII_def)

lemma RuneCount_ascii: "list_all isASCII s \<Longrightarrow> RuneCountInString s = length s"
  by (induction s) (simp_all add: runeSize_ascii)

lemma RuneCount_Cons_ascii: "isASCII c \<Longrightarrow> RuneCountInString (c # s) = Suc (RuneCountInString s)"
  by (simp add: runeSize_ascii)

lemma RuneCount_spaces: "RuneCountInString (replicate n CHR '' '') = n"
  by (simp add: RuneCount_ascii list_all_iff isASCII_def byte_def)

lemma RuneCount_padRight:
  "RuneCountInString (padRight wid s) = max wid (RuneCountInString s)"
proof -
  have "RuneCountInString (padRight wid s)
        = RuneCountInString s + RuneCountInString (replicate (wid - RuneCountInString s) CHR '' '')"
    unfolding padRight_def
    by (rule RuneCount_append_ascii) (cases "wid - RuneCountInString s", auto simp: isASCII_def byte_def)
  then show ?thesis by (simp add: RuneCount_spaces)
qed

lemma isASCII_digitChar: "d < 10 \<Longrightarrow> isASCII (digitChar d)"
  by (simp add: isASCII_def digitChar_def byte_def)

lemma fmtNat_ascii: "list_all isASCII (fmtNat n)"
proof (induction n rule: fmtNat.induct)
  case (1 n)
  show ?case
  proof (cases "n < 10")
    case True
    then show ?thesis by (subst fmtNat.simps) (simp add: isASCII_digitChar)
  next
    case False
    then show ?thesis using 1 by (subst fmtNat.simps) (simp add: isASCII_digitChar)
  qed
qed

lemma fmtNat_length: "n < 10 ^ Suc k \<Longrightarrow> length (fmtNat n) \<le> Suc k"
proof (induction k arbitrary: n)
  case 0
  then show ?case by (subst fmtNat.simps) simp
next
  case (Suc k)
  show ?case
  proof (cases "n < 10")
    case True
    then show ?thesis by (subst fmtNat.simps) simp
  next
    case False
    from Suc.prems have "n div 10 < 10 ^ Suc k" by (simp add: less_mult_imp_div_less)
    from Suc.IH [OF this] False show ?thesis by (subst fmtNat.simps) simp
  qed
qed

lemma fmtInt_ascii: "list_all isASCII (fmtInt i)"
  by (simp add: fmtInt_def fmtNat_ascii isASCII_def byte_def)

lemma fmtInt_length: "sixChars i \<Longrightarrow> length (fmtInt i) \<le> 6"
proof (cases "i < 0")
  case True
  assume "sixChars i"
  with True have "nat (- i) < 10 ^ Suc 4" by (simp add: sixChars_def)
  from fmtNat_length [OF this] True show ?thesis by (simp add: fmtInt_def)
next
  case False
  assume "sixChars i"
  with False have "nat i < 10 ^ Suc 5" by (simp add: sixChars_def)
  from fmtNat_length [OF this] False show ?thesis by (simp add: fmtInt_def)
qed

lemma padRight_ascii: "list_all isASCII s \<Longrightarrow> list_all isASCII (padRight n s)"
  by (auto simp: padRight_def list_all_iff isASCII_def byte_def)

lemma SprintfMillis_runes:
  assumes "sixChars a" "sixChars b"
  shows "RuneCountInString (SprintfMillis a b) = 13"
proof -
  have asc: "list_all isASCII (SprintfMillis a b)"
    by (simp add: SprintfMillis_def padRight_ascii fmtInt_ascii isASCII_def byte_def)
  have len: "length (padRight 6 (fmtInt i)) = 6" if "sixChars i" for i
    using fmtInt_length [OF that] by (simp add: padRight_def RuneCount_ascii fmtInt_ascii)
  show ?thesis
    by (simp add: RuneCount_ascii [OF asc]) (simp add: SprintfMillis_def len assms)
qed

lemma RenderLabel_runes: "millisFit e \<Longrightarrow> int (RuneCountInString (RenderLabel e)) \<le> Width e"
proof (cases e)
  case (LabelEntry s k v)
  then show ?thesis using RuneCount_le_length [of k] by simp
next
  case (EventEntry s v t st pv)
  assume "millisFit e"
  with EventEntry show ?thesis by (simp add: SprintfMillis_runes Let_def)
qed

lemma RuneCount_ascii_prefix:
  "list_all isASCII a \<Longrightarrow> RuneCountInString (a @ b) = length a + RuneCountInString b"
  by (induction a) (simp_all add: runeSize_ascii)

lemma isASCII_literal [simp]:
  "isASCII ESC" "isASCII CHR ''[''" "isASCII CHR '';''" "isASCII CHR ''m''"
  "isASCII CHR ''0''" "isASCII CHR ''2''" "isASCII CHR ''3''" "isASCII CHR ''4''" "isASCII CHR ''8''"
  "isASCII CHR '' ''" "isASCII CHR ''-''"
  by (simp_all add: isASCII_def byte_def ESC_def)

lemma OneForeground_ascii: "list_all isASCII (OneForeground c)"
  by (simp add: OneForeground_def fmtWord_def fmtNat_ascii)

lemma OneForeground_hd: "OneForeground c = ESC # tl (OneForeground c)"
  by (simp add: OneForeground_def)

lemma Foreground_runes:
  "RuneCountInString (x @ Foreground fg text)
     = RuneCountInString x + length (OneForeground fg) + RuneCountInString text + 4"
proof -
  have "RuneCountInString (x @ Foreground fg text)
        = RuneCountInString x + RuneCountInString (Foreground fg text)"
    by (rule RuneCount_append_ascii) (simp add: Foreground_def OneForeground_def)
  moreover have "RuneCountInString (Foreground fg text)
        = length (OneForeground fg) + RuneCountInString (text @ Reset)"
    unfolding Foreground_def by (rule RuneCount_ascii_prefix) (rule OneForeground_ascii)
  moreover have "RuneCountInString (text @ Reset) = RuneCountInString text + RuneCountInString Reset"
    by (rule RuneCount_append_ascii) (simp add: Reset_def)
  moreover have "RuneCountInString Reset = 4"
    by (subst RuneCount_ascii) (simp_all add: Reset_def)
  ultimately show ?thesis by simp
qed

lemma SprintfLeftStar_runes:
  assumes "int (RuneCountInString s) \<le> w" "w \<le> 1000000"
  shows "RuneCountInString (SprintfLeftStar w s) = nat w"
  using assms by (simp add: SprintfLeftStar_def RuneCount_padRight)

lemma separatorColumn_eq:
  assumes "millisFit e" "Width e \<le> w" "w \<le> 1000000"
  shows "separatorColumn lib l w e =
     RuneCountInString (prefixBlock lib l @ '' ''
        @ ColorAndStyle lib (borderFg l) (borderBg l) (borderStyle l) glyphVertical @ '' '')
       + length (OneForeground BrightWhite) + nat w + 4"
proof -
  have "int (RuneCountInString (RenderLabel e)) \<le> w"
    using RenderLabel_runes [OF assms(1)] assms(2) by simp
  from SprintfLeftStar_runes [OF this assms(3)]
  show ?thesis
    using Foreground_runes [of "prefixBlock lib l @ '' ''
        @ ColorAndStyle lib (borderFg l) (borderBg l) (borderStyle l) glyphVertical @ '' ''"
        BrightWhite "SprintfLeftStar w (RenderLabel e)"]
    by (simp add: separatorColumn_def beforeSeparator_def)
qed

lemma foldl_max_Width:
  "foldl (\<lambda>m e. if m < Width e then Width e else m) a es = Max (set (a # map Width es))"
proof (induction es arbitrary: a)
  case Nil
  show ?case by simp
next
  case (Cons e es)
  have "Max (insert (if a < Width e then Width e else a) (Width ` set es))
        = Max (insert a (insert (Width e) (Width ` set es)))"
    by (cases "Width ` set es = {}") (auto simp: max_def)
  then show ?case by (simp add: Cons.IH)
qed

lemma calculateMaxWidth_Max: "calculateMaxWidth l = Max (set (0 # map Width (entries l)))"
  by (simp add: calculateMaxWidth_def foldl_max_Width)

lemma Width_nonneg: "0 \<le> Width e"
  by (cases e) simp_all

lemma calculateMaxWidth_nonempty:
  "entries l \<noteq> [] \<Longrightarrow> calculateMaxWidth l = Max (Width ` set (entries l))"
proof -
  assume ne: "entries l \<noteq> []"
  then have "Width ` set (entries l) \<noteq> {}" by simp
  moreover have "0 \<le> Max (Width ` set (entries l))"
    using ne Width_nonneg by (auto simp: Max_ge_iff neq_Nil_conv)
  ultimately show ?thesis by (simp add: calculateMaxWidth_Max max_def)
qed

lemma Width_le_calculateMaxWidth: "e \<in> set (entries l) \<Longrightarrow> Width e \<le> calculateMaxWidth l"
  by (simp add: calculateMaxWidth_Max)

lemma renderLine_beforeSeparator:
  "renderLine lib l w e = beforeSeparator lib l w e @ '' : '' @ RenderValue e"
  by (simp add: renderLine_def beforeSeparator_def)


lemma set_firstOccurrences [simp]: "set (firstOccurrences xs) = set xs"
  by (induction xs) auto

lemma firstOccurrences_snoc:
  "firstOccurrences (xs @ [x]) =
     (if x \<in> set xs then firstOccurrences xs else firstOccurrences xs @ [x])"
  by (induction xs) auto

text \<open>
  \<open>firstOccurrences\<close> is the library's \<open>remdups\<close>, which keeps the last occurrence of an
  element, read from the other end; its result has no element twice.
\<close>

lemma firstOccurrences_remdups: "firstOccurrences xs = rev (remdups (rev xs))"
  by (induction xs rule: rev_induct) (simp_all add: firstOccurrences_snoc)

lemma distinct_firstOccurrences: "distinct (firstOccurrences xs)"
  by (simp add: firstOccurrences_remdups)

lemma groupEntries_char:
  "groupEntries lib es =
     ((\<lambda>s. if s \<in> Section lib ` set es then Some (filter (\<lambda>e. Section lib e = s) es) else None),
      firstOccurrences (map (Section lib) es))"
proof (induction es rule: rev_induct)
  case Nil
  show ?case by (simp add: groupEntries_def)
next
  case (snoc e es)
  have "groupEntries lib (es @ [e]) = groupStep lib (groupEntries lib es) e"
    by (simp add: groupEntries_def)
  also have "\<dots> = ((\<lambda>s. if s \<in> Section lib ` set (es @ [e])
                          then Some (filter (\<lambda>e. Section lib e = s) (es @ [e])) else None),
                    firstOccurrences (map (Section lib) (es @ [e])))"
    unfolding snoc.IH
    by (auto simp: groupStep_def lookupSection_def Let_def firstOccurrences_snoc fun_eq_iff
        filter_empty_conv empty_filter_conv image_iff)
  finally show ?case .
qed

lemma lookupSection_group:
  "lookupSection (fst (groupEntries lib es)) s = filter (\<lambda>e. Section lib e = s) es"
  by (auto simp: groupEntries_char lookupSection_def filter_empty_conv empty_filter_conv image_iff)

lemma renderSections_collect:
  "renderSections lib l secs w i order results =
     (case collect (map (\<lambda>(k, s).
              case borderedLine lib l (if k = 0 then glyphTopLeft else glyphBranch) s of
                Inl p \<Rightarrow> Inl p
              | Inr header \<Rightarrow> Inr (header # map (renderLine lib l w) (lookupSection secs s)))
            (enumerate i order)) of
        Inl p \<Rightarrow> Inl p
      | Inr body \<Rightarrow> Inr (results @ body))"
proof (induction order arbitrary: i results)
  case Nil
  show ?case by simp
next
  case (Cons s rest)
  show ?case
    by (simp add: Cons.IH Let_def split: sum.splits)
qed

lemma prefixBlock_complete [simp]:
  "prefixBlock lib (l\<lparr>complete := b\<rparr>) = prefixBlock lib l"
  by (simp add: prefixBlock_def)

lemma createBorderLine_complete [simp]:
  "createBorderLine lib (l\<lparr>complete := b\<rparr>) c t = createBorderLine lib l c t"
  by (simp add: createBorderLine_def Let_def cong: sum.case_cong if_cong)

lemma borderedLine_complete [simp]:
  "borderedLine lib (l\<lparr>complete := b\<rparr>) c t = borderedLine lib l c t"
  by (simp add: borderedLine_def cong: sum.case_cong)

lemma renderLine_complete [simp]:
  "renderLine lib (l\<lparr>complete := b\<rparr>) = renderLine lib l"
  by (simp add: renderLine_def fun_eq_iff)

lemma Render_RenderSpec: "fst (Render lib l) = RenderSpec lib l"
proof -
  obtain secs order where grp: "groupEntries lib (entries l) = (secs, order)"
    by (cases "groupEntries lib (entries l)")
  have order: "order = firstOccurrences (map (Section lib) (entries l))"
    using grp by (simp add: groupEntries_char)
  have secs: "lookupSection secs s = filter (\<lambda>e. Section lib e = s) (entries l)" for s
    using lookupSection_group [of lib "entries l" s] grp by simp
  have "fst (Render lib l) =
      (case renderSections lib (l\<lparr>complete := True\<rparr>) secs (calculateMaxWidth l) 0 order [] of
         Inl p \<Rightarrow> Inl p
       | Inr results \<Rightarrow>
           if 0 < length results then
             (case borderedLine lib l glyphBottomLeft [] of
                Inl p \<Rightarrow> Inl p
              | Inr footer \<Rightarrow> Inr (results @ [footer]))
           else Inr results)"
    by (simp add: Render_def Let_def grp calculateMaxWidth_def cong: sum.case_cong if_cong)
  also have "\<dots> = RenderSpec lib l"
    by (simp add: renderSections_collect secs order RenderSpec_def sectionGroup_def
        calculateMaxWidth_Max Let_def cong: sum.case_cong if_cong split: sum.splits)
  finally show ?thesis .
qed

lemma Repeat_ok:
  "0 \<le> n \<Longrightarrow> int (length s) * n \<le> maxInt64 \<Longrightarrow> Repeat s n = Inr (concat (replicate (nat n) s))"
  by (auto simp: Repeat_def)

lemma Repeat_negative: "n < 0 \<Longrightarrow> Repeat s n = Inl NegativeRepeatCount"
  by (simp add: Repeat_def)

lemma Repeat_dashes: "Repeat glyphHorizontal 4 = Inr (concat (replicate 4 glyphHorizontal))"
  by (rule Repeat_ok [of 4 glyphHorizontal, simplified]) (simp add: glyphHorizontal_def maxInt64_def)

lemma createBorderLine_Repeat:
  "createBorderLine lib l c t =
     (case Repeat glyphHorizontal (borderWidth l t) of
        Inl p \<Rightarrow> Inl p
      | Inr fill \<Rightarrow>
          Inr (concat (map (colorize lib)
                 (butlast (butlast (borderPieces l c t))
                   @ [(borderFg l, borderBg l, borderStyle l, fill),
                      (borderFg l, borderBg l, borderStyle l, glyphCap)]))))"
  by (cases "t = []")
     (simp_all add: createBorderLine_def Repeat_dashes borderWidth_def borderPieces_def
        colorize_def Let_def split: sum.splits)

lemma createBorderLine_negative:
  "borderWidth l t < 0 \<Longrightarrow> createBorderLine lib l c t = Inl NegativeRepeatCount"
  by (simp add: createBorderLine_Repeat Repeat_negative)

lemma createBorderLine_ok:
  assumes "0 \<le> borderWidth l t" "3 * borderWidth l t \<le> maxInt64"
  shows "createBorderLine lib l c t = Inr (concat (map (colorize lib) (borderPieces l c t)))"
proof -
  have "Repeat glyphHorizontal (borderWidth l t)
        = Inr (concat (replicate (nat (borderWidth l t)) glyphHorizontal))"
    using assms by (intro Repeat_ok) (simp_all add: glyphHorizontal_def)
  then show ?thesis
    by (cases "t = []") (simp_all add: createBorderLine_Repeat borderPieces_def Let_def)
qed

lemma wrap64_id: "minInt64 \<le> x \<Longrightarrow> x \<le> maxInt64 \<Longrightarrow> wrap64 x = x"
  by (simp add: wrap64_def minInt64_def maxInt64_def)

lemma borderWidth_plain:
  assumes "(if t = [] then 5 else 9 + int (length t)) \<le> width l" "width l \<le> maxInt64"
  shows "borderWidth l t = (if t = [] then width l - 5 else width l - 9 - int (length t))"
proof -
  have w: "5 \<le> width l" using assms(1) by (simp split: if_splits)
  have a: "wrap64 (width l - 5) = width l - 5"
    by (rule wrap64_id) (use w assms(2) in \<open>simp_all add: minInt64_def maxInt64_def\<close>)
  show ?thesis
  proof (cases "t = []")
    case True
    then show ?thesis by (simp add: borderWidth_def a)
  next
    case False
    with assms(1) have t: "9 + int (length t) \<le> width l" by simp
    have b: "wrap64 (int (length t) + 4) = int (length t) + 4"
      by (rule wrap64_id) (use t assms(2) in \<open>simp_all add: minInt64_def maxInt64_def\<close>)
    have c: "wrap64 (width l - 5 - (int (length t) + 4)) = width l - 5 - (int (length t) + 4)"
      by (rule wrap64_id) (use t assms(2) in \<open>simp_all add: minInt64_def maxInt64_def\<close>)
    have "borderWidth l t = width l - 5 - (int (length t) + 4)"
      using False by (simp only: borderWidth_def a b c) simp
    then show ?thesis using False by simp
  qed
qed

lemma RuneCount_glyphHorizontal: "RuneCountInString (glyphHorizontal @ s) = Suc (RuneCountInString s)"
  by (simp add: glyphHorizontal_def runeSize_def seqSize_def first_def byte_def isCont_def)

lemma RuneCount_fill: "RuneCountInString (concat (replicate n glyphHorizontal)) = n"
  by (induction n) (simp_all add: RuneCount_glyphHorizontal)

lemma RuneCount_glyphs:
  "RuneCountInString glyphCap = 1" "RuneCountInString glyphBracketLeft = 1"
  "RuneCountInString glyphBracketRight = 1" "RuneCountInString glyphTopLeft = 1"
  "RuneCountInString glyphBranch = 1" "RuneCountInString glyphBottomLeft = 1"
  "RuneCountInString glyphVertical = 1"
  by (simp_all add: glyphCap_def glyphBracketLeft_def glyphBracketRight_def glyphTopLeft_def
      glyphBranch_def glyphBottomLeft_def glyphVertical_def
      runeSize_def seqSize_def first_def byte_def isCont_def)

lemma RuneCount_spaced:
  "list_all isASCII t \<Longrightarrow> RuneCountInString ('' '' @ t @ '' '') = length t + 2"
  by (subst RuneCount_ascii) (simp_all add: isASCII_def byte_def)

lemma glyphCount_borderPieces:
  assumes "list_all isASCII t"
  shows "glyphCount (borderPieces l c t) =
     RuneCountInString c + 4 + (if t = [] then 0 else length t + 4) + nat (borderWidth l t) + 1"
proof -
  have four: "RuneCountInString (concat (replicate 4 glyphHorizontal)) = 4"
    by (rule RuneCount_fill)
  show ?thesis
    using RuneCount_spaced [OF assms]
    by (simp only: glyphCount_def borderPieces_def Let_def)
       (simp add: four RuneCount_fill RuneCount_glyphs)
qed


lemma isNewSection_char:
  "i < int (length es) \<Longrightarrow>
     isNewSection lib es i s = (s \<notin> Section lib ` set (take (nat (i + 1)) es))"
proof (induction lib es i s rule: isNewSection.induct)
  case (1 lib es i s)
  show ?case
  proof (cases "0 \<le> i")
    case False
    then show ?thesis by (subst isNewSection.simps) simp
  next
    case True
    with 1 have lt: "nat i < length es" by simp
    have tk: "take (nat (i + 1)) es = take (nat i) es @ [es ! nat i]"
      using True lt by (simp add: nat_add_distrib take_Suc_conv_app_nth)
    have nat_eq: "nat (i - 1 + 1) = nat i" by simp
    show ?thesis
    proof (cases "Section lib (es ! nat i) = s")
      case eq: True
      then show ?thesis using True by (subst isNewSection.simps) (auto simp: tk)
    next
      case neq: False
      have "isNewSection lib es (i - 1) s = (s \<notin> Section lib ` set (take (nat i) es))"
        using "1.IH" [OF True neq] "1.prems" by (simp add: nat_eq)
      then show ?thesis using True neq by (subst isNewSection.simps) (auto simp: tk)
    qed
  qed
qed

lemma streamEntry_new:
  assumes "entries l = es @ [e]" "s \<notin> Section lib ` set es"
  shows "streamEntry lib l e s =
     (case borderedLine lib l glyphBranch s of
        Inl p \<Rightarrow> Inl p
      | Inr header \<Rightarrow> Inr [header, renderEntry lib l e (calculateMaxWidth l)])"
proof -
  have "isNewSection lib (es @ [e]) (int (length (es @ [e])) - 2) s
        = (s \<notin> Section lib ` set (take (nat (int (length (es @ [e])) - 2 + 1)) (es @ [e])))"
    by (rule isNewSection_char) simp
  then have "isNewSection lib (es @ [e]) (int (length (es @ [e])) - 2) s"
    using assms(2) by simp
  then show ?thesis
    by (simp add: streamEntry_def assms(1) Let_def split: sum.splits)
qed

lemma streamEntry_old:
  assumes "entries l = es @ [e]" "s \<in> Section lib ` set es"
  shows "streamEntry lib l e s = Inr [renderEntry lib l e (calculateMaxWidth l)]"
proof -
  have "isNewSection lib (es @ [e]) (int (length (es @ [e])) - 2) s
        = (s \<notin> Section lib ` set (take (nat (int (length (es @ [e])) - 2 + 1)) (es @ [e])))"
    by (rule isNewSection_char) simp
  then have "\<not> isNewSection lib (es @ [e]) (int (length (es @ [e])) - 2) s"
    using assms(2) by simp
  then show ?thesis
    by (simp add: streamEntry_def assms(1) Let_def)
qed



lemma borderedLine_ok:
  "borderFits l t \<Longrightarrow> borderedLine lib l c t = Inr (borderedText lib l c t)"
  by (simp add: borderFits_def borderedLine_def borderedText_def createBorderLine_ok)

lemma collect_all_Inr:
  "list_all (\<lambda>g. \<exists>ls. g = Inr ls) gs \<Longrightarrow> \<exists>ls. collect gs = Inr ls"
  by (induction gs rule: collect.induct) auto

lemma Render_returns:
  assumes "list_all (\<lambda>e. borderFits l (Section lib e)) (entries l)" "borderFits l []"
  shows "\<exists>lines. fst (Render lib l) = Inr lines"
proof -
  define w where "w = Max (set (0 # map Width (entries l)))"
  define order where "order = firstOccurrences (map (Section lib) (entries l))"
  have fits: "borderFits l s" if "s \<in> set order" for s
    using that assms(1) by (auto simp: order_def list_all_iff)
  have grp: "\<exists>ls. sectionGroup lib l w i s = Inr ls" if "s \<in> set order" for i s
    by (simp add: sectionGroup_def borderedLine_ok [OF fits [OF that]])
  have "list_all (\<lambda>g. \<exists>ls. g = Inr ls)
          (map (\<lambda>(i, s). sectionGroup lib l w i s) (enumerate 0 order))"
  proof -
    have "\<exists>ls. (case p of (i, s) \<Rightarrow> sectionGroup lib l w i s) = Inr ls"
      if "p \<in> set (enumerate 0 order)" for p
    proof -
      from that have "fst p < length order" "order ! fst p = snd p"
        by (simp_all add: in_set_enumerate_eq)
      then have "snd p \<in> set order" using nth_mem [of "fst p" order] by simp
      from grp [OF this, of "fst p"] show ?thesis by (simp add: split_beta)
    qed
    then show ?thesis by (simp add: list_all_iff)
  qed
  from collect_all_Inr [OF this] obtain body where
    "collect (map (\<lambda>(i, s). sectionGroup lib l w i s) (enumerate 0 order)) = Inr body" ..
  then show ?thesis
    by (simp add: Render_RenderSpec RenderSpec_def Let_def borderedLine_ok [OF assms(2)]
        w_def [symmetric] order_def [symmetric] del: set_simps list.set)
qed

lemmas upperEval = ToUpper_def isASCII_def byte_def asciiUpper_def char_of_def bit_Suc_0_iff

lemma ToUpper_examples:
  "ToUpper goLib ''id'' = ''ID''" "ToUpper goLib ''net'' = ''NET''"
  "ToUpper goLib ''divert'' = ''DIVERT''" "ToUpper goLib ''DIVERT'' = ''DIVERT''"
  by (simp_all add: upperEval)



lemma borderFits_New80:
  "width l = 80 \<Longrightarrow> length t \<le> 71 \<Longrightarrow> borderFits l t"
  by (simp add: borderFits_def borderWidth_def wrap64_def maxInt64_def)





lemma exampleLog_entries:
  "entries exampleLog = [EventEntry ''divert'' ''start'' 5000000 0 0,
                         LabelEntry ''ID'' ''Code'' ''42'']"
  by (simp add: exampleLog_def Add_def Event_def Let_def ToUpper_examples New_def)

lemma longRunLog_entries:
  "entries longRunLog = [EventEntry ''divert'' ''start'' 1000000000000 0 0,
                         LabelEntry ''ID'' ''Code'' ''42'']"
  by (simp add: longRunLog_def Add_def Event_def Let_def ToUpper_examples New_def)

lemma millis_examples:
  "Milliseconds (Sub 5000000 0) = 5" "Milliseconds (Sub 1000000000000 0) = 1000000"
  by (simp_all add: Milliseconds_def Sub_def maxInt64_def minInt64_def)

lemma fmtInt_million: "fmtInt 1000000 = ''1000000''"
  by (simp add: fmtInt_def fmtNat.simps digitChar_def char_of_def bit_Suc_0_iff)

lemma RuneCount_literals:
  "RuneCountInString ''1000000'' = 7" "RuneCountInString ''1000000 1000000'' = 15"
  "RuneCountInString ''Code'' = 4"
  using RuneCount_ascii [of "''1000000''"] RuneCount_ascii [of "''1000000 1000000''"]
    RuneCount_ascii [of "''Code''"]
  by (simp_all add: isASCII_def byte_def del: RuneCountInString.simps)

lemma RenderLabel_longRun:
  "RenderLabel (EventEntry ''divert'' ''start'' 1000000000000 0 0) = ''1000000 1000000''"
  by (simp add: millis_examples SprintfMillis_def padRight_def fmtInt_million RuneCount_literals
      del: RuneCountInString.simps)

lemma ToUpper_capitals: "ToUpper lib (replicate 72 CHR ''A'') = replicate 72 CHR ''A''"
  by (simp add: ToUpper_def list_all_iff isASCII_def byte_def asciiUpper_def)

lemma borderWidth_72: "width l = 80 \<Longrightarrow> borderWidth l (replicate 72 CHR ''A'') = - 1"
  by (simp add: borderWidth_def wrap64_def)

lemma borderedLine_negative:
  "borderWidth l t < 0 \<Longrightarrow> borderedLine lib l c t = Inl NegativeRepeatCount"
  by (simp add: borderedLine_def createBorderLine_negative)

lemma divertLog_eq:
  "divertLog = (New 0 ''ABC'')\<lparr>entries := [EventEntry ''divert'' ''start'' 5000000 0 0],
                                lastTime := 5000000, complete := True\<rparr>"
  by (simp add: divertLog_def Render_snd Event_def Let_def New_def)

lemma collect_Inr_all: "collect gs = Inr body \<Longrightarrow> g \<in> set gs \<Longrightarrow> \<exists>ls. g = Inr ls"
  by (induction gs arbitrary: body rule: collect.induct) (auto split: sum.splits)

lemma collect_Inr_subset: "collect gs = Inr body \<Longrightarrow> Inr ls \<in> set gs \<Longrightarrow> set ls \<subseteq> set body"
  by (induction gs arbitrary: body rule: collect.induct) (auto split: sum.splits)

lemma Render_entry_line:
  assumes "fst (Render lib l) = Inr lines" "e \<in> set (entries l)"
  shows "renderLine lib l (calculateMaxWidth l) e \<in> set lines"
proof -
  define w where "w = calculateMaxWidth l"
  define order where "order = firstOccurrences (map (Section lib) (entries l))"
  define gs where "gs = map (\<lambda>(i, s). sectionGroup lib l w i s) (enumerate 0 order)"
  have spec: "RenderSpec lib l =
      (case collect gs of
         Inl p \<Rightarrow> Inl p
       | Inr body \<Rightarrow>
           if body = [] then Inr []
           else (case borderedLine lib l glyphBottomLeft [] of
                   Inl p \<Rightarrow> Inl p
                 | Inr footer \<Rightarrow> Inr (body @ [footer])))"
    by (simp add: RenderSpec_def Let_def gs_def w_def order_def calculateMaxWidth_Max)
  from assms(1) have r: "RenderSpec lib l = Inr lines" by (simp add: Render_RenderSpec)
  then have "\<exists>body. collect gs = Inr body \<and> set body \<subseteq> set lines"
    unfolding spec by (cases "collect gs") (auto split: sum.splits if_splits)
  then obtain body where body: "collect gs = Inr body" and sub: "set body \<subseteq> set lines"
    by blast
  have "Section lib e \<in> set order" using assms(2) by (simp add: order_def)
  then obtain i where i: "i < length order" "order ! i = Section lib e"
    by (auto simp: in_set_conv_nth)
  then have "(i, Section lib e) \<in> set (enumerate 0 order)"
    by (simp add: in_set_enumerate_eq)
  then have mem: "sectionGroup lib l w i (Section lib e) \<in> set gs"
    unfolding gs_def by force
  from collect_Inr_all [OF body mem] obtain ls where
    ls: "sectionGroup lib l w i (Section lib e) = Inr ls" ..
  then have "renderLine lib l w e \<in> set ls"
    using assms(2) by (auto simp: sectionGroup_def split: sum.splits)
  moreover have "set ls \<subseteq> set body"
    using collect_Inr_subset [OF body] mem ls by simp
  ultimately show ?thesis using sub by (auto simp: w_def)
qed





















subsection \<open>Claims\<close>

text \<open>
  C7, as the code has it: \<^verbatim>\<open>Add\<close> and \<^verbatim>\<open>Event\<close> set \<open>lastTime\<close> to the clock reading
  of the call; \<^verbatim>\<open>Clear\<close> never reads the clock and leaves \<open>lastTime\<close> as it was.
\<close>

theorem mutation_lastTime:
  "lastTime (snd (Add lib now s k v l)) = now
   \<and> lastTime (snd (Event lib now s v l)) = now
   \<and> lastTime (snd (Clear lib s l)) = lastTime l"
  by (simp add: Add_def Event_def Clear_def Let_def)

text \<open>
  C7 as stated fails for \<^verbatim>\<open>Clear\<close>: on a logger created at time 0, the \<open>lastTime\<close>
  after \<^verbatim>\<open>Clear("X")\<close> is not the current time, whatever time the call is made at (it
  stays 0, so a call at time 1 already shows it).
\<close>

theorem Clear_lastTime_counterexample:
  "\<not> (\<forall>now. lastTime (snd (Clear goLib ''X'' (New 0 ''p''))) = now)"
proof
  assume "\<forall>now. lastTime (snd (Clear goLib ''X'' (New 0 ''p''))) = now"
  then have "lastTime (snd (Clear goLib ''X'' (New 0 ''p''))) = 1" by blast
  then show False by (simp add: Clear_def New_def)
qed

text \<open>
  C8: \<^verbatim>\<open>Clear(s)\<close> keeps exactly the entries whose \<^verbatim>\<open>Section()\<close> differs from the
  upper-cased \<open>s\<close>, in their original order, changes no other field of the logger (the
  rendered flag, \<open>startTime\<close> and \<open>lastTime\<close> among them) and prints nothing.
\<close>

theorem Clear_scoping_frame:
  "snd (Clear lib s l) =
     l\<lparr>entries := filter (\<lambda>e. Section lib e \<noteq> ToUpper lib s) (entries l)\<rparr>
   \<and> complete (snd (Clear lib s l)) = complete l
   \<and> startTime (snd (Clear lib s l)) = startTime l
   \<and> lastTime (snd (Clear lib s l)) = lastTime l
   \<and> fst (Clear lib s l) = Inr []"
  by (simp add: Clear_def clearLoop_filter)

text \<open>
  C9: a second \<^verbatim>\<open>Render\<close> right after a first one gives the same outcome, for every
  logger the first one can be called on: the same lines, or the same panic.
\<close>

theorem Render_idempotent:
  "fst (Render lib (snd (Render lib l))) = fst (Render lib l)"
  by (simp only: Render_snd Render_complete)

text \<open>
  C10: \<^verbatim>\<open>Render\<close> changes the logger in the flag \<open>complete\<close> only, which it sets. On an
  empty buffer it returns no line and still sets the flag; \<^verbatim>\<open>Add\<close> and \<^verbatim>\<open>Event\<close>
  after any \<^verbatim>\<open>Render\<close> take the streaming path: they print (or panic while building
  the header), where before the first \<^verbatim>\<open>Render\<close> they print nothing.
\<close>

theorem Render_frame:
  "snd (Render lib l) = l\<lparr>complete := True\<rparr>
   \<and> fst (Render lib (l\<lparr>entries := []\<rparr>)) = Inr []
   \<and> complete (snd (Render lib (l\<lparr>entries := []\<rparr>)))
   \<and> fst (Add lib now s k v (snd (Render lib l))) \<noteq> Inr []
   \<and> fst (Event lib now s v (snd (Render lib l))) \<noteq> Inr []
   \<and> fst (Add lib now s k v (l\<lparr>complete := False\<rparr>)) = Inr []
   \<and> fst (Event lib now s v (l\<lparr>complete := False\<rparr>)) = Inr []"
  by (simp add: Render_snd Render_empty Add_streams Event_streams Add_buffers Event_buffers)

text \<open>
  C4: \<^verbatim>\<open>Render\<close> returns what the specification's algorithm describes: the groups of
  the sections in the order in which each section name first occurs in the buffer, in each
  group the header and then the lines of the entries of that section in buffer order, and
  the closing border line. A panic of a border line is the outcome of both.
\<close>

theorem Render_section_order: "fst (Render lib l) = RenderSpec lib l"
  by (rule Render_RenderSpec)

text \<open>
  C5, amended: when the two millisecond counts of every event entry of the buffer take at
  most six characters each and the key width is at most one million, the key width of a
  \<^verbatim>\<open>Render\<close> is the maximum \<^verbatim>\<open>Width()\<close> over the whole buffer, the line of every
  entry is among the lines returned, it is the text before the separator, the separator
  and the value, and the separator starts at the same column in the lines of any two
  entries.
\<close>

theorem Render_column_alignment:
  assumes "list_all millisFit (entries l)"
    and "calculateMaxWidth l \<le> 1000000"
    and "e \<in> set (entries l)" and "e' \<in> set (entries l)"
    and "fst (Render lib l) = Inr lines"
  shows "calculateMaxWidth l = Max (Width ` set (entries l))
    \<and> renderLine lib l (calculateMaxWidth l) e \<in> set lines
    \<and> renderLine lib l (calculateMaxWidth l) e
        = beforeSeparator lib l (calculateMaxWidth l) e @ '' : '' @ RenderValue e
    \<and> separatorColumn lib l (calculateMaxWidth l) e
        = separatorColumn lib l (calculateMaxWidth l) e'"
proof -
  from assms(3) have ne: "entries l \<noteq> []" by auto
  have fit: "millisFit x" if "x \<in> set (entries l)" for x
    using assms(1) that by (simp add: list_all_iff)
  have "separatorColumn lib l (calculateMaxWidth l) e
        = separatorColumn lib l (calculateMaxWidth l) e'"
    by (simp add: separatorColumn_eq fit assms Width_le_calculateMaxWidth)
  then show ?thesis
    using Render_entry_line [OF assms(5,3)]
    by (simp add: calculateMaxWidth_nonempty [OF ne] renderLine_beforeSeparator)
qed

text \<open>
  C2, as the code computes it: for an ASCII section name and a width that leaves room
  for the fixed parts (and is below a third of the largest \<^verbatim>\<open>int\<close>), the border line
  is the join of its coloured pieces, and these hold one glyph more than the configured
  width: the count passed to \<^verbatim>\<open>strings.Repeat\<close> leaves the trailing cap out of account.
\<close>

theorem createBorderLine_glyphs:
  assumes "RuneCountInString leftChar = 1" and "list_all isASCII t"
    and "(if t = [] then 5 else 9 + int (length t)) \<le> width l"
    and "3 * width l \<le> maxInt64"
  shows "createBorderLine lib l leftChar t
           = Inr (concat (map (colorize lib) (borderPieces l leftChar t)))
    \<and> int (glyphCount (borderPieces l leftChar t)) = width l + 1"
proof -
  have w: "width l \<le> maxInt64" using assms(3,4) by (simp add: maxInt64_def split: if_splits)
  have bw: "borderWidth l t = (if t = [] then width l - 5 else width l - 9 - int (length t))"
    by (rule borderWidth_plain [OF assms(3) w])
  have nonneg: "0 \<le> borderWidth l t" using assms(3) by (simp add: bw split: if_splits)
  have small: "3 * borderWidth l t \<le> maxInt64" using assms(3,4) by (simp add: bw split: if_splits)
  have "int (glyphCount (borderPieces l leftChar t)) = width l + 1"
    using assms(1,3) nonneg by (simp add: glyphCount_borderPieces [OF assms(2)] bw split: if_splits)
  then show ?thesis by (simp add: createBorderLine_ok [OF nonneg small])
qed

text \<open>
  The default logger (width 80) with the section name \<^verbatim>\<open>A\<close>: 81 glyphs.
\<close>

theorem createBorderLine_glyphs_witness:
  "createBorderLine goLib (New 0 ''p'') glyphTopLeft ''A''
     = Inr (concat (map (colorize goLib) (borderPieces (New 0 ''p'') glyphTopLeft ''A'')))
   \<and> width (New 0 ''p'') = 80
   \<and> glyphCount (borderPieces (New 0 ''p'') glyphTopLeft ''A'') = 81"
  using createBorderLine_glyphs [of glyphTopLeft "''A''" "New 0 ''p''" goLib]
  by (simp add: RuneCount_glyphs isASCII_def byte_def New_def maxInt64_def)

text \<open>
  The witness of the theorem of C5: the logger with an event after 5 ms and a label.
\<close>

theorem Render_column_alignment_witness:
  "list_all millisFit (entries exampleLog) \<and> calculateMaxWidth exampleLog \<le> 1000000
   \<and> entries exampleLog ! 0 \<in> set (entries exampleLog)
   \<and> entries exampleLog ! 1 \<in> set (entries exampleLog)
   \<and> (\<exists>lines. fst (Render goLib exampleLog) = Inr lines
         \<and> renderLine goLib exampleLog 13 (entries exampleLog ! 0) \<in> set lines)
   \<and> calculateMaxWidth exampleLog = 13
   \<and> separatorColumn goLib exampleLog 13 (entries exampleLog ! 0)
       = separatorColumn goLib exampleLog 13 (entries exampleLog ! 1)"
proof -
  have fit: "list_all millisFit (entries exampleLog)"
    by (simp add: exampleLog_entries millis_examples sixChars_def)
  have w: "calculateMaxWidth exampleLog = 13"
    by (simp add: calculateMaxWidth_def exampleLog_entries)
  have le: "calculateMaxWidth exampleLog \<le> 1000000" by (simp add: w)
  have m0: "entries exampleLog ! 0 \<in> set (entries exampleLog)"
    and m1: "entries exampleLog ! 1 \<in> set (entries exampleLog)"
    by (simp_all add: exampleLog_entries)
  have wd: "width exampleLog = 80"
    by (simp add: exampleLog_def Add_def Event_def Let_def New_def)
  have "list_all (\<lambda>e. borderFits exampleLog (Section goLib e)) (entries exampleLog)"
    by (simp add: exampleLog_entries ToUpper_examples borderFits_New80 [OF wd])
  moreover have "borderFits exampleLog []"
    by (simp add: borderFits_New80 [OF wd])
  ultimately obtain lines where r: "fst (Render goLib exampleLog) = Inr lines"
    using Render_returns by blast
  from Render_column_alignment [OF fit le m0 m1 r]
  show ?thesis using fit le m0 m1 r by (auto simp: w)
qed

text \<open>
  C5 as stated fails: with an event 1000 seconds after the logger was made, the rendered
  label of the event is \<^verbatim>\<open>1000000 1000000\<close>, 15 characters for a key width of 13, and in
  one \<^verbatim>\<open>Render\<close> the separator of the event line starts two columns to the right of the
  separator of the label line.
\<close>

theorem column_alignment_counterexample:
  "fst (Render goLib longRunLog) =
     Inr [borderedText goLib longRunLog glyphTopLeft ''DIVERT'',
          renderLine goLib longRunLog 13 (EventEntry ''divert'' ''start'' 1000000000000 0 0),
          borderedText goLib longRunLog glyphBranch ''ID'',
          renderLine goLib longRunLog 13 (LabelEntry ''ID'' ''Code'' ''42''),
          borderedText goLib longRunLog glyphBottomLeft []]
   \<and> calculateMaxWidth longRunLog = 13
   \<and> separatorColumn goLib longRunLog 13 (EventEntry ''divert'' ''start'' 1000000000000 0 0)
       = separatorColumn goLib longRunLog 13 (LabelEntry ''ID'' ''Code'' ''42'') + 2"
proof -
  have w: "width longRunLog = 80"
    by (simp add: longRunLog_def Add_def Event_def Let_def New_def)
  have fit: "borderFits longRunLog ''DIVERT''" "borderFits longRunLog ''ID''"
    "borderFits longRunLog []"
    by (rule borderFits_New80; simp add: w)+
  have r: "fst (Render goLib longRunLog) =
     Inr [borderedText goLib longRunLog glyphTopLeft ''DIVERT'',
          renderLine goLib longRunLog 13 (EventEntry ''divert'' ''start'' 1000000000000 0 0),
          borderedText goLib longRunLog glyphBranch ''ID'',
          renderLine goLib longRunLog 13 (LabelEntry ''ID'' ''Code'' ''42''),
          borderedText goLib longRunLog glyphBottomLeft []]"
    by (simp add: Render_RenderSpec RenderSpec_def longRunLog_entries sectionGroup_def
        ToUpper_examples
        borderedLine_ok [OF fit(1)] borderedLine_ok [OF fit(2)] borderedLine_ok [OF fit(3)]
        enumerate_simps)
  have m: "calculateMaxWidth longRunLog = 13"
    by (simp add: calculateMaxWidth_def longRunLog_entries)
  have a: "RuneCountInString (SprintfLeftStar 13 ''1000000 1000000'') = 15"
    by (simp add: SprintfLeftStar_def RuneCount_padRight RuneCount_literals
        del: RuneCountInString.simps)
  have b: "RuneCountInString (SprintfLeftStar 13 ''Code'') = 13"
    by (simp add: SprintfLeftStar_def RuneCount_padRight RuneCount_literals
        del: RuneCountInString.simps)
  have "separatorColumn goLib longRunLog 13 (EventEntry ''divert'' ''start'' 1000000000000 0 0)
       = separatorColumn goLib longRunLog 13 (LabelEntry ''ID'' ''Code'' ''42'') + 2"
    unfolding separatorColumn_def beforeSeparator_def
    using Foreground_runes [of "prefixBlock goLib longRunLog @ '' ''
        @ ColorAndStyle goLib (borderFg longRunLog) (borderBg longRunLog) (borderStyle longRunLog)
            glyphVertical @ '' ''" BrightWhite]
    by (simp add: RenderLabel_longRun a b del: RenderLabel.simps(2) RuneCountInString.simps)
  with r m show ?thesis by simp
qed




text \<open>
  C3 fails on the code: with the default width of 80, a section name of 72 bytes makes the
  count passed to \<^verbatim>\<open>strings.Repeat\<close> negative, and \<^verbatim>\<open>Render\<close> panics; so does \<^verbatim>\<open>Add\<close>
  when it prints the header of that section after a \<^verbatim>\<open>Render\<close>.
\<close>

theorem long_section_name_panics:
  "fst (Render lib (snd (Add lib now (replicate 72 CHR ''A'') k v (New t0 pfx))))
     = Inl NegativeRepeatCount
   \<and> fst (Add lib now (replicate 72 CHR ''A'') k v (snd (Render lib (New t0 pfx))))
     = Inl NegativeRepeatCount"
proof -
  let ?S = "replicate 72 CHR ''A''"
  let ?e = "LabelEntry ?S k v"
  let ?l = "(New t0 pfx)\<lparr>entries := [?e], lastTime := now\<rparr>"
  have neg: "borderedLine lib l c ?S = Inl NegativeRepeatCount" if "width l = 80" for l c
    using borderWidth_72 [OF that] by (simp add: borderedLine_negative)
  have "snd (Add lib now ?S k v (New t0 pfx)) = ?l"
    by (simp add: Add_def Let_def ToUpper_capitals New_def)
  moreover have "RenderSpec lib ?l = Inl NegativeRepeatCount"
    by (simp add: RenderSpec_def sectionGroup_def neg New_def enumerate_simps)
  ultimately have first: "fst (Render lib (snd (Add lib now ?S k v (New t0 pfx))))
     = Inl NegativeRepeatCount"
    by (simp only: Render_RenderSpec)
  let ?r = "(New t0 pfx)\<lparr>complete := True, entries := [?e], lastTime := now\<rparr>"
  have ent: "entries ?r = [] @ [?e]" by simp
  have "fst (Add lib now ?S k v (snd (Render lib (New t0 pfx)))) = streamEntry lib ?r ?e ?S"
    by (simp add: Add_def Let_def ToUpper_capitals Render_snd New_def)
  also have "\<dots> = Inl NegativeRepeatCount"
    by (subst streamEntry_new [OF ent]) (simp_all add: neg New_def)
  finally show ?thesis using first by simp
qed

text \<open>
  C6 fails on the code: after a \<^verbatim>\<open>Render\<close> of a logger whose buffer holds an event of
  section \<^verbatim>\<open>DIVERT\<close>, \<^verbatim>\<open>Event("divert", ...)\<close> compares the stored sections with the
  name as given, finds none, and prints a header that shows \<^verbatim>\<open>divert\<close>; the same call
  with \<^verbatim>\<open>DIVERT\<close>, and \<^verbatim>\<open>Add("divert", ...)\<close>, print the entry line alone.
\<close>

theorem Event_lowercase_section_prints_header:
  "map (Section goLib) (entries divertLog) = [''DIVERT'']
   \<and> fst (Event goLib 9000000 ''divert'' ''late'' divertLog) =
       Inr [borderedText goLib (snd (Event goLib 9000000 ''divert'' ''late'' divertLog))
              glyphBranch ''divert'',
            renderEntry goLib (snd (Event goLib 9000000 ''divert'' ''late'' divertLog))
              (EventEntry ''divert'' ''late'' 9000000 0 5000000) 13]
   \<and> fst (Event goLib 9000000 ''DIVERT'' ''late'' divertLog) =
       Inr [renderEntry goLib (snd (Event goLib 9000000 ''DIVERT'' ''late'' divertLog))
              (EventEntry ''DIVERT'' ''late'' 9000000 0 5000000) 13]
   \<and> fst (Add goLib 9000000 ''divert'' ''Code'' ''late'' divertLog) =
       Inr [renderEntry goLib (snd (Add goLib 9000000 ''divert'' ''Code'' ''late'' divertLog))
              (LabelEntry ''DIVERT'' ''Code'' ''late'') 13]"
proof -
  let ?e0 = "EventEntry ''divert'' ''start'' 5000000 0 0"
  have secs: "map (Section goLib) (entries divertLog) = [''DIVERT'']"
    by (simp add: divertLog_eq ToUpper_examples)
  have ev: "Event goLib 9000000 s ''late'' divertLog =
      (streamEntry goLib
         (divertLog\<lparr>entries := [?e0] @ [EventEntry s ''late'' 9000000 0 5000000],
                     lastTime := 9000000\<rparr>)
         (EventEntry s ''late'' 9000000 0 5000000) s,
       divertLog\<lparr>entries := [?e0] @ [EventEntry s ''late'' 9000000 0 5000000],
                   lastTime := 9000000\<rparr>)" for s
    by (simp add: Event_def Let_def divertLog_eq New_def)
  have ad: "Add goLib 9000000 ''divert'' ''Code'' ''late'' divertLog =
      (streamEntry goLib
         (divertLog\<lparr>entries := [?e0] @ [LabelEntry ''DIVERT'' ''Code'' ''late''],
                     lastTime := 9000000\<rparr>)
         (LabelEntry ''DIVERT'' ''Code'' ''late'') ''DIVERT'',
       divertLog\<lparr>entries := [?e0] @ [LabelEntry ''DIVERT'' ''Code'' ''late''],
                   lastTime := 9000000\<rparr>)"
    by (simp add: Add_def Let_def divertLog_eq New_def ToUpper_examples)
  have new: "''divert'' \<notin> Section goLib ` set [?e0]"
    and old: "''DIVERT'' \<in> Section goLib ` set [?e0]"
    by (simp_all add: ToUpper_examples)
  have fit: "borderFits (divertLog\<lparr>entries := es, lastTime := t\<rparr>) ''divert''" for es t
    by (rule borderFits_New80) (simp_all add: divertLog_eq New_def)
  show ?thesis
    apply (simp only: ev ad fst_conv snd_conv secs)
    apply (subst streamEntry_new [OF _ new], simp)
    apply (subst streamEntry_old [OF _ old], simp)
    apply (subst streamEntry_old [OF _ old], simp)
    apply (simp add: borderedLine_ok [OF fit] calculateMaxWidth_def)
    done
qed

end
